theory Spec2Isabelle
  imports Main "HOL-Library.AList"
begin

section \<open>Graph workflow engine: data model\<close>

text \<open>
  The plan library is a JSON document read into Python dictionaries. A key that the
  code reads with \<^verbatim>\<open>d.get(k, default)\<close> or with \<^verbatim>\<open>d[k]\<close> may be missing, so
  every such key is an \<open>option\<close> field: \<open>None\<close> is the missing key.
  \<open>get_or\<close> is \<^verbatim>\<open>d.get(k, default)\<close>; a subscript \<^verbatim>\<open>d[k]\<close> on a missing
  key raises \<^verbatim>\<open>KeyError\<close>, which the model returns as a value.
  Values that are present have the type the engine expects (strings are strings,
  counts are integers). A dictionary may carry keys that the traversal never reads
  (\<^verbatim>\<open>tool\<close>, \<^verbatim>\<open>tool_hint\<close>, \<^verbatim>\<open>description\<close>, ...); they matter only to the
  truth value of the dictionary, and the field \<open>other_keys\<close> says whether there are any.
\<close>

datatype pyerror = KeyError string | OtherException string

definition get_or :: "'a \<Rightarrow> 'a option \<Rightarrow> 'a" where
  "get_or d x = (case x of None \<Rightarrow> d | Some v \<Rightarrow> v)"

record verify_spec =
  v_type :: "string option"
  v_value :: "string option"
  v_other_keys :: bool

record node =
  n_type :: "string option"
  n_name :: "string option"
  n_action :: "string option"
  n_verify :: "verify_spec option"
  n_max_retries :: "int option"
  n_pace_level :: "string option"
  n_reason :: "string option"
  n_other_keys :: bool

subsection \<open>Strings: \<^verbatim>\<open>str.lower\<close>, \<^verbatim>\<open>str.strip\<close>, \<^verbatim>\<open>in\<close>\<close>

text \<open>
  A character is a code point below 256 (Basic Latin and Latin-1 Supplement), which is
  what the type \<open>char\<close> holds; text with other code points is outside the model.
  On such text \<^verbatim>\<open>str.lower\<close> works character by character: it maps \<open>A\<close> to \<open>Z\<close>
  (65 to 90) and the capital letters 192 to 222, the multiplication sign 215 apart, to
  the code point 32 higher, and leaves every other character. \<^verbatim>\<open>str.strip\<close> removes
  from both ends the characters for which \<^verbatim>\<open>str.isspace\<close> holds: 9 to 13, 28 to 32,
  133 (next line) and 160 (no-break space).
\<close>

definition lower_chr :: "char \<Rightarrow> char" where
  "lower_chr c =
     (let n = (of_char c :: nat)
      in if (65 \<le> n \<and> n \<le> 90) \<or> (192 \<le> n \<and> n \<le> 222 \<and> n \<noteq> 215)
         then char_of (n + 32) else c)"

definition lower :: "string \<Rightarrow> string" where
  "lower s = map lower_chr s"

definition py_isspace :: "char \<Rightarrow> bool" where
  "py_isspace c =
     (let n = (of_char c :: nat)
      in (9 \<le> n \<and> n \<le> 13) \<or> (28 \<le> n \<and> n \<le> 32) \<or> n = 133 \<or> n = 160)"

definition strip :: "string \<Rightarrow> string" where
  "strip s = rev (dropWhile py_isspace (rev (dropWhile py_isspace s)))"

fun starts_with :: "string \<Rightarrow> string \<Rightarrow> bool" where
  "starts_with [] s = True"
| "starts_with (c # cs) [] = False"
| "starts_with (c # cs) (d # ds) = (c = d \<and> starts_with cs ds)"

text \<open>\<open>substr v s\<close> is Python's \<^verbatim>\<open>v in s\<close> on strings: \<open>v\<close> occurs contiguously in \<open>s\<close>.\<close>

fun substr :: "string \<Rightarrow> string \<Rightarrow> bool" where
  "substr v [] = (v = [])"
| "substr v (c # cs) = (starts_with v (c # cs) \<or> substr v cs)"

subsection \<open>Verification evaluator\<close>

text \<open>
  \<^verbatim>\<open>if not verify\<close> holds for a missing key and for the empty dictionary.
\<close>

definition verify_falsy :: "verify_spec \<Rightarrow> bool" where
  "verify_falsy v = (v_type v = None \<and> v_value v = None \<and> \<not> v_other_keys v)"

definition verify_node :: "node \<Rightarrow> string \<Rightarrow> bool" where
  "verify_node node output =
     (case n_verify node of
        None \<Rightarrow> True
      | Some verify \<Rightarrow>
          if verify_falsy verify then True
          else
            let vtype = get_or ''any_output'' (v_type verify);
                val = get_or '''' (v_value verify);
                output_lower = lower output
            in if vtype = ''output_contains'' then substr (lower val) output_lower
               else if vtype = ''output_not_contains'' then \<not> substr (lower val) output_lower
               else if vtype = ''exit_code_zero'' then
                 \<not> substr ''error'' output_lower \<and> \<not> substr ''exit code'' output_lower
               else if vtype = ''any_output'' then strip output \<noteq> []
               else if vtype = ''file_exists'' then True
               else if vtype = ''manual'' then True
               else True)"

subsection \<open>Plans, graphs, traversal state\<close>

record edge =
  e_from :: "string option"
  e_to :: "string option"
  e_condition :: "string option"

record graph =
  g_nodes :: "(string \<times> node) list option"
  g_edges :: "edge list option"
  g_start :: "string option"

text \<open>\<open>p_has_steps\<close> is \<^verbatim>\<open>"steps" in plan\<close>: the plan is a linear (legacy) one.\<close>

record plan =
  p_name :: "string option"
  p_domains :: "string list option"
  p_triggers :: "string list option"
  p_trigger_threshold :: "int option"
  p_stale_after_turns :: "int option"
  p_graph :: "graph option"
  p_has_steps :: bool
  p_other_keys :: bool

text \<open>
  The library is the dictionary \<^verbatim>\<open>library.get("plans", {})\<close> in iteration order;
  \<open>map_of\<close> is the lookup by plan id. A dictionary has each key once.
\<close>

type_synonym library = "(string \<times> plan) list"

datatype event_kind =
    PlanActivated string string
  | NodeEntered string
  | NodeVerified string string
  | RetryTriggered string
  | EdgeFollowed string string string
  | PlanExpired string
  | PlanCompleted string
  | PlanEscalated string string string

datatype event = Event (ev_turn: int) (ev_kind: event_kind)

record visit =
  outcome :: string
  attempts :: int

text \<open>
  The traversal state of \<^verbatim>\<open>_create_graph_state\<close>; its \<^verbatim>\<open>mode\<close> key is the
  constant \<^verbatim>\<open>"graph"\<close>. \<open>visited\<close> is a dictionary kept as an association list:
  \<open>AList.update\<close> overwrites a key in place and appends a new one, as Python does.
\<close>

record tstate =
  plan_id :: string
  plan_name :: string
  current_step :: int
  total_steps :: int
  turns_since_progress :: int
  steps_completed :: "string list"
  steps_failed :: "string list"
  stale_after_turns :: int
  iteration_started :: int
  current_node :: string
  visited :: "(string \<times> visit) list"
  path :: "string list"
  total_nodes :: int
  completed_nodes :: int
  turns_since_transition :: int
  events :: "event list"

subsection \<open>The session: agent, log, turn data\<close>

text \<open>
  The linear engine is the legacy variant beside the graph engine; its state is left
  abstract, and \<open>execute\<close> takes its two entry points as parameters.
\<close>

typedecl linear_state

datatype htn = GraphMode tstate | LinearMode linear_state

datatype log_level = Info | Warning

datatype log_msg =
    MsgGraphActivated string int
  | MsgExpired string int
  | MsgCompleted string int int
  | MsgEscalated string string string
  | MsgStallSuccess string
  | MsgStallExhaust string
  | MsgError pyerror

text \<open>
  What \<^verbatim>\<open>extras_temporary["htn_active_plan"]\<close> holds: the status block rendered from
  a traversal state (the text itself is not modelled), or the escalation message with
  plan name, reason, pace level and the two node counts.
\<close>

datatype injected =
    WorkflowStatus tstate
  | EscalationMessage string string string int int

text \<open>
  \<open>htn_state\<close> is the attribute \<^verbatim>\<open>_htn_state\<close> (\<open>None\<close>: the attribute is not set);
  \<open>bst_domain\<close> is what \<^verbatim>\<open>_get_bst_domain\<close> reads; \<open>allowed_plans\<close> is
  \<^verbatim>\<open>agent.get_data("_org_htn_allowed_plans")\<close>. The log sink only appends.
\<close>

record agent =
  htn_state :: "htn option"
  org_pace_level :: "string option"
  bst_domain :: string
  allowed_plans :: "string list option"
  agent_log :: "(log_level \<times> log_msg) list"

text \<open>
  \<open>user_message\<close> and \<open>last_tool_output\<close> are the results of \<^verbatim>\<open>_get_user_message\<close>
  and \<^verbatim>\<open>_get_last_tool_output\<close> on the turn history.
\<close>

record loop_data =
  user_message :: string
  last_tool_output :: "string option"
  extras_htn_active_plan :: "injected option"

text \<open>
  A call either returns or raises; both carry the mutable data as the call left it,
  since the dictionaries are updated in place.
\<close>

datatype 'a outcome = Returned 'a | Raised pyerror 'a

fun result_of :: "'a outcome \<Rightarrow> 'a" where
  "result_of (Returned x) = x"
| "result_of (Raised e x) = x"

fun raised :: "'a outcome \<Rightarrow> pyerror option" where
  "raised (Returned x) = None"
| "raised (Raised e x) = Some e"

record turn =
  t_agent :: agent
  t_loop :: loop_data
  t_state :: tstate

definition MAX_EVENTS :: nat where
  "MAX_EVENTS = 50"

definition MAX_ROUTE_DEPTH :: nat where
  "MAX_ROUTE_DEPTH = 15"

subsection \<open>Plan matching\<close>

fun match_loop ::
  "(string \<times> plan) list \<Rightarrow> string list option \<Rightarrow> string \<Rightarrow> string \<Rightarrow>
     string option \<times> int \<Rightarrow> string option \<times> int" where
  "match_loop [] allowed domain message best = best"
| "match_loop ((pid, plan) # rest) allowed domain message (best_id, best_score) =
     (if (case allowed of None \<Rightarrow> False | Some al \<Rightarrow> pid \<notin> set al)
      then match_loop rest allowed domain message (best_id, best_score)
      else
        let plan_domains = get_or [] (p_domains plan);
            domain_match = (plan_domains = [] \<or> domain \<in> set plan_domains);
            triggers = get_or [] (p_triggers plan);
            threshold = get_or 2 (p_trigger_threshold plan);
            hits = int (length (filter (\<lambda>t. substr t message) triggers))
        in if hits \<ge> threshold \<and> domain_match
           then
             let score = hits + (if domain_match \<and> plan_domains \<noteq> [] then 1 else 0)
             in if score > best_score
                then match_loop rest allowed domain message (Some pid, score)
                else match_loop rest allowed domain message (best_id, best_score)
           else match_loop rest allowed domain message (best_id, best_score))"

text \<open>
  \<^verbatim>\<open>if best_id:\<close> is false for \<^verbatim>\<open>None\<close> and for the empty string. The lookup
  \<^verbatim>\<open>plans[best_id]\<close> cannot miss: \<open>best_id\<close> is a key met in the loop.
\<close>

definition match_plan ::
  "library \<Rightarrow> string \<Rightarrow> string \<Rightarrow> string list option \<Rightarrow> (string \<times> plan) option" where
  "match_plan library domain message allowed =
     (case fst (match_loop library allowed domain message (None, 0)) of
        None \<Rightarrow> None
      | Some best_id \<Rightarrow>
          if best_id = [] then None
          else (case map_of library best_id of
                  None \<Rightarrow> None
                | Some plan \<Rightarrow> Some (best_id, plan)))"

subsection \<open>State management and the event log\<close>

definition set_state :: "agent \<Rightarrow> tstate \<Rightarrow> agent" where
  "set_state agent state = agent\<lparr>htn_state := Some (GraphMode state)\<rparr>"

definition clear_state :: "agent \<Rightarrow> agent" where
  "clear_state agent = agent\<lparr>htn_state := None\<rparr>"

definition log_to :: "agent \<Rightarrow> log_level \<Rightarrow> log_msg \<Rightarrow> agent" where
  "log_to agent level msg = agent\<lparr>agent_log := agent_log agent @ [(level, msg)]\<rparr>"

definition emit_event :: "tstate \<Rightarrow> event_kind \<Rightarrow> tstate" where
  "emit_event state kind =
     (let evs = events state @ [Event (turns_since_transition state) kind]
      in state\<lparr>events := (if length evs > MAX_EVENTS
                            then drop (length evs - MAX_EVENTS) evs else evs)\<rparr>)"

definition create_graph_state :: "agent \<Rightarrow> string \<Rightarrow> plan \<Rightarrow> pyerror + agent \<times> tstate" where
  "create_graph_state agent pid plan =
     (case p_graph plan of
        None \<Rightarrow> Inl (KeyError ''graph'')
      | Some graph \<Rightarrow>
          let nodes = get_or [] (g_nodes graph);
              task_count = int (length (filter (\<lambda>(k, n). n_type n = Some ''task'') nodes));
              state = \<lparr>plan_id = pid,
                       plan_name = get_or pid (p_name plan),
                       current_step = 0,
                       total_steps = task_count,
                       turns_since_progress = 0,
                       steps_completed = [],
                       steps_failed = [],
                       stale_after_turns = get_or 15 (p_stale_after_turns plan),
                       iteration_started = 0,
                       current_node = get_or '''' (g_start graph),
                       visited = [],
                       path = [get_or '''' (g_start graph)],
                       total_nodes = task_count,
                       completed_nodes = 0,
                       turns_since_transition = 0,
                       events = []\<rparr>;
              state = emit_event state (PlanActivated (get_or '''' (g_start graph)) pid)
          in Inr (set_state agent state, state))"

subsection \<open>Edges and moves\<close>

definition edge_condition :: "edge \<Rightarrow> string" where
  "edge_condition e = get_or ''always'' (e_condition e)"

text \<open>The first candidate with the condition; \<^verbatim>\<open>e["to"]\<close> raises when the key is missing.\<close>

fun first_edge :: "edge list \<Rightarrow> string \<Rightarrow> edge option" where
  "first_edge [] condition = None"
| "first_edge (e # es) condition =
     (if edge_condition e = condition then Some e else first_edge es condition)"

definition edge_target :: "edge \<Rightarrow> pyerror + string option" where
  "edge_target e = (case e_to e of None \<Rightarrow> Inl (KeyError ''to'') | Some t \<Rightarrow> Inr (Some t))"

definition follow_edge ::
  "graph \<Rightarrow> string \<Rightarrow> string \<Rightarrow> string \<Rightarrow> string \<Rightarrow> pyerror + string option" where
  "follow_edge graph from_node condition fallback fallback2 =
     (let edges = get_or [] (g_edges graph);
          candidates = filter (\<lambda>e. e_from e = Some from_node) edges
      in (case first_edge candidates condition of
           Some e \<Rightarrow> edge_target e
         | None \<Rightarrow>
             (case (if fallback \<noteq> [] then first_edge candidates fallback else None) of
                Some e \<Rightarrow> edge_target e
              | None \<Rightarrow>
                  (case (if fallback2 \<noteq> [] then first_edge candidates fallback2 else None) of
                     Some e \<Rightarrow> edge_target e
                   | None \<Rightarrow>
                       (case first_edge candidates ''always'' of
                          Some e \<Rightarrow> edge_target e
                        | None \<Rightarrow> Inr None)))))"

definition move_to_node :: "tstate \<Rightarrow> string \<Rightarrow> string \<Rightarrow> string \<Rightarrow> tstate" where
  "move_to_node state from_node to_node condition =
     (let s1 = state\<lparr>current_node := to_node,
                     path := path state @ [to_node],
                     turns_since_transition := 0\<rparr>;
          s2 = (if map_of (visited s1) to_node \<noteq> None
                then s1\<lparr>visited :=
                          AList.update to_node \<lparr>outcome = ''pending'', attempts = 0\<rparr> (visited s1)\<rparr>
                else s1);
          s3 = emit_event s2 (EdgeFollowed from_node to_node condition)
      in emit_event s3 (NodeEntered to_node))"

fun first_outcome :: "event list \<Rightarrow> string" where
  "first_outcome [] = ''success''"
| "first_outcome (Event t (NodeVerified n oc) # es) = oc"
| "first_outcome (e # es) = first_outcome es"

definition get_last_outcome :: "tstate \<Rightarrow> string" where
  "get_last_outcome state = first_outcome (rev (events state))"

text \<open>\<^verbatim>\<open>if not node\<close>: the key is missing or the node is the empty dictionary.\<close>

definition node_falsy :: "node \<Rightarrow> bool" where
  "node_falsy n =
     (n_type n = None \<and> n_name n = None \<and> n_action n = None \<and> n_verify n = None \<and>
      n_max_retries n = None \<and> n_pace_level n = None \<and> n_reason n = None \<and>
      \<not> n_other_keys n)"

subsection \<open>Auto-routing\<close>

function auto_route :: "plan \<Rightarrow> tstate \<Rightarrow> nat \<Rightarrow> tstate outcome" where
  "auto_route plan state depth =
     (if depth \<ge> MAX_ROUTE_DEPTH then Returned state
      else
        case p_graph plan of
          None \<Rightarrow> Raised (KeyError ''graph'') state
        | Some graph \<Rightarrow>
            (case g_nodes graph of
               None \<Rightarrow> Raised (KeyError ''nodes'') state
             | Some nodes \<Rightarrow>
                 (case map_of nodes (current_node state) of
                    None \<Rightarrow> Returned state
                  | Some node \<Rightarrow>
                      if node_falsy node then Returned state
                      else if get_or ''task'' (n_type node) = ''decision'' then
                        (case follow_edge graph (current_node state)
                                (if get_last_outcome state \<noteq> []
                                 then ''on_'' @ get_last_outcome state else ''always'')
                                ''always'' [] of
                           Inl err \<Rightarrow> Raised err state
                         | Inr None \<Rightarrow> Returned state
                         | Inr (Some target) \<Rightarrow>
                             if target = [] then Returned state
                             else auto_route plan
                                    (move_to_node state (current_node state) target
                                       (if get_last_outcome state \<noteq> []
                                        then ''on_'' @ get_last_outcome state else ''always''))
                                    (depth + 1))
                      else if get_or ''task'' (n_type node) = ''start'' then
                        (case follow_edge graph (current_node state) ''always'' [] [] of
                           Inl err \<Rightarrow> Raised err state
                         | Inr None \<Rightarrow> Returned state
                         | Inr (Some target) \<Rightarrow>
                             if target = [] then Returned state
                             else auto_route plan
                                    (move_to_node state (current_node state) target ''always'')
                                    (depth + 1))
                      else if get_or ''task'' (n_type node) = ''checkpoint'' then
                        (case follow_edge graph (current_node state) ''always'' [] [] of
                           Inl err \<Rightarrow> Raised err state
                         | Inr None \<Rightarrow> Returned state
                         | Inr (Some target) \<Rightarrow>
                             if target = [] then Returned state
                             else auto_route plan
                                    (move_to_node state (current_node state) target ''always'')
                                    (depth + 1))
                      else Returned state)))"
  by pat_completeness auto
termination
  by (relation "measure (\<lambda>(plan, state, depth). MAX_ROUTE_DEPTH - depth)") auto

definition advance_from_start :: "plan \<Rightarrow> tstate \<Rightarrow> tstate outcome" where
  "advance_from_start plan state =
     (case p_graph plan of
        None \<Rightarrow> Raised (KeyError ''graph'') state
      | Some graph \<Rightarrow>
          let start_id = get_or '''' (g_start graph);
              s1 = emit_event state (NodeEntered start_id)
          in (case follow_edge graph start_id ''always'' [] [] of
                Inl err \<Rightarrow> Raised err s1
              | Inr None \<Rightarrow> Returned s1
              | Inr (Some target) \<Rightarrow>
                  if target = [] then Returned s1
                  else auto_route plan (move_to_node s1 start_id target ''always'') 0))"

subsection \<open>Terminal nodes and context injection\<close>

definition complete_graph :: "agent \<Rightarrow> tstate \<Rightarrow> agent \<times> tstate" where
  "complete_graph agent state =
     (let s1 = emit_event state (PlanCompleted (current_node state));
          a1 = log_to agent Info (MsgCompleted (plan_name s1) (completed_nodes s1) (total_nodes s1))
      in (clear_state a1, s1))"

definition escalate_graph ::
  "agent \<Rightarrow> tstate \<Rightarrow> node \<Rightarrow> loop_data \<Rightarrow> agent \<times> tstate \<times> loop_data" where
  "escalate_graph agent state escalate_node ld =
     (let pace_level = get_or ''contingent'' (n_pace_level escalate_node);
          reason = get_or ''Plan escalated'' (n_reason escalate_node);
          s1 = emit_event state (PlanEscalated (current_node state) reason pace_level);
          a1 = agent\<lparr>org_pace_level := Some pace_level\<rparr>;
          a2 = log_to a1 Warning (MsgEscalated (plan_name s1) pace_level reason);
          ld1 = ld\<lparr>extras_htn_active_plan :=
                      Some (EscalationMessage (plan_name s1) reason pace_level
                              (completed_nodes s1) (total_nodes s1))\<rparr>
      in (clear_state a2, s1, ld1))"

text \<open>
  The projector renders the status text from the state and the plan. Its only
  subscript on library data is \<^verbatim>\<open>e["to"]\<close> over the outgoing edges of a current node
  whose type is \<^verbatim>\<open>"task"\<close>; the assignment to \<^verbatim>\<open>extras_temporary\<close> is its last
  statement.
\<close>

definition inject_graph_context :: "loop_data \<Rightarrow> tstate \<Rightarrow> plan \<Rightarrow> pyerror + loop_data" where
  "inject_graph_context ld state plan =
     (let graph = get_or \<lparr>g_nodes = None, g_edges = None, g_start = None\<rparr> (p_graph plan);
          nodes = get_or [] (g_nodes graph);
          edges = get_or [] (g_edges graph);
          current_id = current_node state;
          out_edges = filter (\<lambda>e. e_from e = Some current_id) edges
      in if (case map_of nodes current_id of None \<Rightarrow> False | Some n \<Rightarrow> n_type n = Some ''task'')
            \<and> (\<exists>e \<in> set out_edges. e_to e = None)
         then Inl (KeyError ''to'')
         else Inr (ld\<lparr>extras_htn_active_plan := Some (WorkflowStatus state)\<rparr>))"

text \<open>
  The state dictionary is the very object stored on the agent, so what the engine
  wrote into it before a raise or before the final \<^verbatim>\<open>_set_state\<close> is what the agent
  holds: \<open>set_state\<close> stands for both.
\<close>

definition inject_and_set :: "plan \<Rightarrow> agent \<Rightarrow> tstate \<Rightarrow> loop_data \<Rightarrow> turn outcome" where
  "inject_and_set plan agent state ld =
     (case inject_graph_context ld state plan of
        Inl err \<Rightarrow> Raised err \<lparr>t_agent = set_state agent state, t_loop = ld, t_state = state\<rparr>
      | Inr ld1 \<Rightarrow> Returned \<lparr>t_agent = set_state agent state, t_loop = ld1, t_state = state\<rparr>)"

subsection \<open>The per-turn driver\<close>

text \<open>The task branch of \<^verbatim>\<open>_check_graph_progress\<close>, entered with a tool output.\<close>

definition cgp_task ::
  "plan \<Rightarrow> graph \<Rightarrow> string \<Rightarrow> node \<Rightarrow> agent \<Rightarrow> tstate \<Rightarrow> string \<Rightarrow> (agent \<times> tstate) outcome" where
  "cgp_task plan graph node_id node agent state last_output =
     (let v0 = (case map_of (visited state) node_id of
                  None \<Rightarrow> \<lparr>outcome = ''pending'', attempts = 0\<rparr>
                | Some v \<Rightarrow> v);
          v1 = v0\<lparr>attempts := attempts v0 + 1\<rparr>;
          s1 = state\<lparr>visited := AList.update node_id v1 (visited state)\<rparr>;
          verified = verify_node node last_output;
          s2 = emit_event s1 (NodeVerified node_id (if verified then ''success'' else ''fail''))
      in if verified then
           (let s3 = s2\<lparr>visited := AList.update node_id (v1\<lparr>outcome := ''success''\<rparr>) (visited s2)\<rparr>;
                s4 = (if node_id \<notin> set (steps_completed s3)
                      then s3\<lparr>completed_nodes := completed_nodes s3 + 1,
                              steps_completed := steps_completed s3 @ [node_id],
                              turns_since_progress := 0\<rparr>
                      else s3);
                s5 = s4\<lparr>current_step := completed_nodes s4\<rparr>
            in (case follow_edge graph node_id ''on_success'' ''always'' [] of
                  Inl err \<Rightarrow> Raised err (agent, s5)
                | Inr None \<Rightarrow> Returned (log_to agent Warning (MsgStallSuccess node_id), s5)
                | Inr (Some target) \<Rightarrow>
                    if target = []
                    then Returned (log_to agent Warning (MsgStallSuccess node_id), s5)
                    else (case auto_route plan (move_to_node s5 node_id target ''on_success'') 0 of
                            Raised err s6 \<Rightarrow> Raised err (agent, s6)
                          | Returned s6 \<Rightarrow> Returned (agent, s6))))
         else if attempts v1 \<le> get_or 0 (n_max_retries node) then
           (let s3 = emit_event s2 (RetryTriggered node_id)
            in (case follow_edge graph node_id ''on_retry'' [] [] of
                  Inl err \<Rightarrow> Raised err (agent, s3)
                | Inr None \<Rightarrow> Returned (agent, s3)
                | Inr (Some target) \<Rightarrow>
                    if target = [] then Returned (agent, s3)
                    else (case auto_route plan (move_to_node s3 node_id target ''on_retry'') 0 of
                            Raised err s4 \<Rightarrow> Raised err (agent, s4)
                          | Returned s4 \<Rightarrow> Returned (agent, s4))))
         else
           (let s3 = s2\<lparr>visited := AList.update node_id (v1\<lparr>outcome := ''fail''\<rparr>) (visited s2)\<rparr>;
                s4 = (if node_id \<notin> set (steps_failed s3)
                      then s3\<lparr>steps_failed := steps_failed s3 @ [node_id]\<rparr> else s3)
            in (case follow_edge graph node_id ''on_exhaust'' ''on_fail'' ''always'' of
                  Inl err \<Rightarrow> Raised err (agent, s4)
                | Inr None \<Rightarrow> Returned (log_to agent Warning (MsgStallExhaust node_id), s4)
                | Inr (Some target) \<Rightarrow>
                    if target = []
                    then Returned (log_to agent Warning (MsgStallExhaust node_id), s4)
                    else (case auto_route plan (move_to_node s4 node_id target ''on_exhaust'') 0 of
                            Raised err s5 \<Rightarrow> Raised err (agent, s5)
                          | Returned s5 \<Rightarrow> Returned (agent, s5)))))"

text \<open>
  The end of \<^verbatim>\<open>_check_graph_progress\<close>: the landing node is looked at again, an exit
  or escalate node is handled in the same turn, otherwise the context is injected.
  \<^verbatim>\<open>final_node["type"]\<close> is a subscript.
\<close>

definition cgp_finish ::
  "(string \<times> node) list \<Rightarrow> plan \<Rightarrow> agent \<Rightarrow> tstate \<Rightarrow> loop_data \<Rightarrow> turn outcome" where
  "cgp_finish nodes plan agent state ld =
     (case map_of nodes (current_node state) of
        None \<Rightarrow> inject_and_set plan agent state ld
      | Some final_node \<Rightarrow>
          if node_falsy final_node then inject_and_set plan agent state ld
          else
            (case n_type final_node of
               None \<Rightarrow>
                 Raised (KeyError ''type'')
                   \<lparr>t_agent = set_state agent state, t_loop = ld, t_state = state\<rparr>
             | Some ty \<Rightarrow>
                 if ty = ''exit'' then
                   (let (a1, s1) = complete_graph agent state
                    in Returned \<lparr>t_agent = a1, t_loop = ld, t_state = s1\<rparr>)
                 else if ty = ''escalate'' then
                   (let (a1, s1, ld1) = escalate_graph agent state final_node ld
                    in Returned \<lparr>t_agent = a1, t_loop = ld1, t_state = s1\<rparr>)
                 else inject_and_set plan agent state ld))"

definition check_graph_progress ::
  "library \<Rightarrow> agent \<Rightarrow> tstate \<Rightarrow> loop_data \<Rightarrow> turn outcome" where
  "check_graph_progress library agent state0 ld =
     (let s1 = state0\<lparr>turns_since_transition := turns_since_transition state0 + 1\<rparr>;
          state = s1\<lparr>turns_since_progress := turns_since_progress s1 + 1\<rparr>;
          stale_limit = stale_after_turns state
      in if turns_since_transition state > stale_limit then
           (let s2 = emit_event state (PlanExpired (current_node state));
                a1 = log_to agent Info (MsgExpired (plan_name s2) stale_limit)
            in Returned \<lparr>t_agent = clear_state a1, t_loop = ld, t_state = s2\<rparr>)
         else
           (case map_of library (plan_id state) of
              None \<Rightarrow> Returned \<lparr>t_agent = clear_state agent, t_loop = ld, t_state = state\<rparr>
            | Some plan \<Rightarrow>
                (case p_graph plan of
                   None \<Rightarrow> Returned \<lparr>t_agent = clear_state agent, t_loop = ld, t_state = state\<rparr>
                 | Some graph \<Rightarrow>
                     (case g_nodes graph of
                        None \<Rightarrow>
                          Raised (KeyError ''nodes'')
                            \<lparr>t_agent = set_state agent state, t_loop = ld, t_state = state\<rparr>
                      | Some nodes \<Rightarrow>
                          (case map_of nodes (current_node state) of
                             None \<Rightarrow>
                               Returned \<lparr>t_agent = clear_state agent, t_loop = ld, t_state = state\<rparr>
                           | Some node \<Rightarrow>
                               if node_falsy node then
                                 Returned \<lparr>t_agent = clear_state agent, t_loop = ld, t_state = state\<rparr>
                               else if get_or ''task'' (n_type node) = ''exit'' then
                                 (let (a1, s2) = complete_graph agent state
                                  in Returned \<lparr>t_agent = a1, t_loop = ld, t_state = s2\<rparr>)
                               else if get_or ''task'' (n_type node) = ''escalate'' then
                                 (let (a1, s2, ld1) = escalate_graph agent state node ld
                                  in Returned \<lparr>t_agent = a1, t_loop = ld1, t_state = s2\<rparr>)
                               else if get_or ''task'' (n_type node) = ''start'' then
                                 (case advance_from_start plan state of
                                    Raised err s2 \<Rightarrow>
                                      Raised err
                                        \<lparr>t_agent = set_state agent s2, t_loop = ld, t_state = s2\<rparr>
                                  | Returned s2 \<Rightarrow> inject_and_set plan agent s2 ld)
                               else if get_or ''task'' (n_type node) = ''task'' then
                                 (case last_tool_output ld of
                                    None \<Rightarrow> cgp_finish nodes plan agent state ld
                                  | Some last_output \<Rightarrow>
                                      (case cgp_task plan graph (current_node state) node agent
                                              state last_output of
                                         Raised err (a1, s2) \<Rightarrow>
                                           Raised err
                                             \<lparr>t_agent = set_state a1 s2, t_loop = ld, t_state = s2\<rparr>
                                       | Returned (a1, s2) \<Rightarrow> cgp_finish nodes plan a1 s2 ld))
                               else if get_or ''task'' (n_type node) = ''decision'' then
                                 (case auto_route plan state 0 of
                                    Raised err s2 \<Rightarrow>
                                      Raised err
                                        \<lparr>t_agent = set_state agent s2, t_loop = ld, t_state = s2\<rparr>
                                  | Returned s2 \<Rightarrow> cgp_finish nodes plan agent s2 ld)
                               else cgp_finish nodes plan agent state ld)))))"

subsection \<open>The entry point\<close>

text \<open>\<^verbatim>\<open>not plan\<close>: the plan is the empty dictionary.\<close>

definition plan_falsy :: "plan \<Rightarrow> bool" where
  "plan_falsy p =
     (p_name p = None \<and> p_domains p = None \<and> p_triggers p = None \<and>
      p_trigger_threshold p = None \<and> p_stale_after_turns p = None \<and> p_graph p = None \<and>
      \<not> p_has_steps p \<and> \<not> p_other_keys p)"

text \<open>
  The body of the \<^verbatim>\<open>try\<close> block. \<open>None\<close> for the library is the falsy result of
  \<^verbatim>\<open>_load_library\<close>. \<open>lin_check\<close> and \<open>lin_activate\<close> are the linear engine's
  progress check and activation: any functions, which may raise.
\<close>

definition execute_body ::
  "(library \<Rightarrow> agent \<Rightarrow> linear_state \<Rightarrow> loop_data \<Rightarrow> (agent \<times> loop_data) outcome) \<Rightarrow>
   (library \<Rightarrow> agent \<Rightarrow> string \<Rightarrow> plan \<Rightarrow> loop_data \<Rightarrow> (agent \<times> loop_data) outcome) \<Rightarrow>
   library option \<Rightarrow> agent \<Rightarrow> loop_data \<Rightarrow> (agent \<times> loop_data) outcome" where
  "execute_body lin_check lin_activate lib agent ld =
     (case lib of
        None \<Rightarrow> Returned (agent, ld)
      | Some library \<Rightarrow>
          (case htn_state agent of
             Some (GraphMode state) \<Rightarrow>
               (case check_graph_progress library agent state ld of
                  Returned t \<Rightarrow> Returned (t_agent t, t_loop t)
                | Raised err t \<Rightarrow> Raised err (t_agent t, t_loop t))
           | Some (LinearMode lstate) \<Rightarrow> lin_check library agent lstate ld
           | None \<Rightarrow>
               if user_message ld = [] then Returned (agent, ld)
               else
                 (case match_plan library (bst_domain agent) (user_message ld)
                         (allowed_plans agent) of
                    None \<Rightarrow> Returned (agent, ld)
                  | Some (pid, plan) \<Rightarrow>
                      if plan_falsy plan then Returned (agent, ld)
                      else if p_graph plan \<noteq> None then
                        (case create_graph_state agent pid plan of
                           Inl err \<Rightarrow> Raised err (agent, ld)
                         | Inr (a1, state) \<Rightarrow>
                             (case advance_from_start plan state of
                                Raised err s1 \<Rightarrow> Raised err (set_state a1 s1, ld)
                              | Returned s1 \<Rightarrow>
                                  (case inject_graph_context ld s1 plan of
                                     Inl err \<Rightarrow> Raised err (set_state a1 s1, ld)
                                   | Inr ld1 \<Rightarrow>
                                       Returned
                                         (log_to (set_state a1 s1) Info
                                            (MsgGraphActivated (get_or pid (p_name plan))
                                               (total_steps s1)),
                                          ld1))))
                      else if p_has_steps plan then lin_activate library agent pid plan ld
                      else Returned (agent, ld))))"

text \<open>
  \<^verbatim>\<open>execute\<close>: the \<^verbatim>\<open>try\<close> block with its handler \<^verbatim>\<open>except Exception\<close>, which
  logs a warning and returns. Every error of the model is a Python \<^verbatim>\<open>Exception\<close>.
\<close>

definition execute ::
  "(library \<Rightarrow> agent \<Rightarrow> linear_state \<Rightarrow> loop_data \<Rightarrow> (agent \<times> loop_data) outcome) \<Rightarrow>
   (library \<Rightarrow> agent \<Rightarrow> string \<Rightarrow> plan \<Rightarrow> loop_data \<Rightarrow> (agent \<times> loop_data) outcome) \<Rightarrow>
   library option \<Rightarrow> agent \<Rightarrow> loop_data \<Rightarrow> (agent \<times> loop_data) outcome" where
  "execute lin_check lin_activate lib agent ld =
     (case execute_body lin_check lin_activate lib agent ld of
        Returned r \<Rightarrow> Returned r
      | Raised err (a1, ld1) \<Rightarrow> Returned (log_to a1 Warning (MsgError err), ld1))"

subsection \<open>Case-insensitive occurrence, as the contract words it\<close>





subsection \<open>Auxiliary notions for the proofs\<close>

text \<open>
  What \<^verbatim>\<open>_auto_route\<close> decides at the current node, before it recurses: stop, raise,
  or move along an edge. It is the case analysis of the body of \<open>auto_route\<close>.
\<close>

datatype route_choice = Stop | Fail pyerror | Move string string

definition route_via :: "graph \<Rightarrow> string \<Rightarrow> string \<Rightarrow> string \<Rightarrow> route_choice" where
  "route_via graph node_id condition fallback =
     (case follow_edge graph node_id condition fallback [] of
        Inl err \<Rightarrow> Fail err
      | Inr None \<Rightarrow> Stop
      | Inr (Some target) \<Rightarrow> if target = [] then Stop else Move target condition)"

definition route_step :: "plan \<Rightarrow> tstate \<Rightarrow> route_choice" where
  "route_step plan state =
     (case p_graph plan of
        None \<Rightarrow> Fail (KeyError ''graph'')
      | Some graph \<Rightarrow>
          (case g_nodes graph of
             None \<Rightarrow> Fail (KeyError ''nodes'')
           | Some nodes \<Rightarrow>
               (case map_of nodes (current_node state) of
                  None \<Rightarrow> Stop
                | Some node \<Rightarrow>
                    if node_falsy node then Stop
                    else if get_or ''task'' (n_type node) = ''decision'' then
                      route_via graph (current_node state)
                        (if get_last_outcome state \<noteq> []
                         then ''on_'' @ get_last_outcome state else ''always'')
                        ''always''
                    else if get_or ''task'' (n_type node) = ''start'' then
                      route_via graph (current_node state) ''always'' []
                    else if get_or ''task'' (n_type node) = ''checkpoint'' then
                      route_via graph (current_node state) ''always'' []
                    else Stop)))"

text \<open>A sequence of moves, each given as (from, to, condition).\<close>

definition apply_moves :: "tstate \<Rightarrow> (string \<times> string \<times> string) list \<Rightarrow> tstate" where
  "apply_moves state ms = foldl (\<lambda>s (f, t, c). move_to_node s f t c) state ms"

text \<open>
  The entry that \<^verbatim>\<open>visited.setdefault(node_id, {"outcome": "pending", "attempts": 0})\<close>
  yields: the stored one, or the default.
\<close>

definition visit_of :: "tstate \<Rightarrow> string \<Rightarrow> visit" where
  "visit_of state node_id =
     (case map_of (visited state) node_id of
        None \<Rightarrow> \<lparr>outcome = ''pending'', attempts = 0\<rparr>
      | Some v \<Rightarrow> v)"

text \<open>
  The state of the retry branch before an edge is looked for: the attempt is counted,
  and the events \<open>node_verified\<close> (outcome fail) and \<open>retry_triggered\<close> are emitted.
\<close>

definition retry_state :: "tstate \<Rightarrow> string \<Rightarrow> tstate" where
  "retry_state state node_id =
     emit_event
       (emit_event
          (state\<lparr>visited :=
             AList.update node_id
               ((visit_of state node_id)\<lparr>attempts := attempts (visit_of state node_id) + 1\<rparr>)
               (visited state)\<rparr>)
          (NodeVerified node_id ''fail''))
       (RetryTriggered node_id)"

subsection \<open>The claims' own words, for comparison\<close>












text \<open>The outgoing edges of a node, in the order of the edge list.\<close>

definition out_edges :: "graph \<Rightarrow> string \<Rightarrow> edge list" where
  "out_edges graph k = filter (\<lambda>e. e_from e = Some k) (get_or [] (g_edges graph))"

section \<open>Example plans\<close>

definition mk_node :: "string \<Rightarrow> node" where
  "mk_node ty = \<lparr>n_type = Some ty, n_name = None, n_action = None, n_verify = None,
     n_max_retries = None, n_pace_level = None, n_reason = None,
     n_other_keys = False\<rparr>"

definition mk_edge :: "string \<Rightarrow> string \<Rightarrow> string \<Rightarrow> edge" where
  "mk_edge f t c = \<lparr>e_from = Some f, e_to = Some t, e_condition = Some c\<rparr>"

definition mk_verify :: "string \<Rightarrow> string \<Rightarrow> verify_spec" where
  "mk_verify ty val = \<lparr>v_type = Some ty, v_value = Some val, v_other_keys = False\<rparr>"

definition mk_plan :: "graph \<Rightarrow> int option \<Rightarrow> plan" where
  "mk_plan g w = \<lparr>p_name = None, p_domains = None, p_triggers = Some [''deploy'', ''release''],
     p_trigger_threshold = None, p_stale_after_turns = w, p_graph = Some g,
     p_has_steps = False, p_other_keys = False\<rparr>"

definition agent0 :: agent where
  "agent0 = \<lparr>htn_state = None, org_pace_level = None, bst_domain = '''',
     allowed_plans = None, agent_log = []\<rparr>"

definition turn_in :: "string option \<Rightarrow> loop_data" where
  "turn_in out = \<lparr>user_message = ''please deploy the release'', last_tool_output = out,
     extras_htn_active_plan = None\<rparr>"

text \<open>A task that passes when the output contains \<^verbatim>\<open>done\<close>, with one retry.\<close>

definition task_done :: node where
  "task_done = (mk_node ''task'')\<lparr>n_verify := Some (mk_verify ''output_contains'' ''done''),
     n_max_retries := Some 1\<rparr>"


text \<open>A linear engine that does nothing, for the examples.\<close>

definition lin_check_nop ::
  "library \<Rightarrow> agent \<Rightarrow> linear_state \<Rightarrow> loop_data \<Rightarrow> (agent \<times> loop_data) outcome" where
  "lin_check_nop l a s d = Returned (a, d)"

definition lin_activate_nop ::
  "library \<Rightarrow> agent \<Rightarrow> string \<Rightarrow> plan \<Rightarrow> loop_data \<Rightarrow> (agent \<times> loop_data) outcome" where
  "lin_activate_nop l a p q d = Returned (a, d)"

text \<open>One turn of the host loop, and a run of turns given the tool output of each.\<close>

definition host_turn :: "library \<Rightarrow> agent \<Rightarrow> string option \<Rightarrow> agent" where
  "host_turn lib a out =
     fst (result_of (execute lin_check_nop lin_activate_nop (Some lib) a (turn_in out)))"

definition host_run :: "library \<Rightarrow> agent \<Rightarrow> string option list \<Rightarrow> agent" where
  "host_run lib a outs = foldl (host_turn lib) a outs"

text \<open>The traversal state the agent holds, if it holds one.\<close>

definition graph_state :: "agent \<Rightarrow> tstate option" where
  "graph_state a = (case htn_state a of Some (GraphMode s) \<Rightarrow> Some s | _ \<Rightarrow> None)"

text \<open>
  A plan whose task \<open>T\<close> leads to a node \<open>U\<close> that has a name and no \<^verbatim>\<open>type\<close> key.
\<close>

definition named_node :: "string \<Rightarrow> node" where
  "named_node nm = \<lparr>n_type = None, n_name = Some nm, n_action = None, n_verify = None,
     n_max_retries = None, n_pace_level = None, n_reason = None,
     n_other_keys = False\<rparr>"

definition graph_untyped :: graph where
  "graph_untyped = \<lparr>g_nodes = Some [(''s'', mk_node ''start''), (''T'', mk_node ''task''),
       (''U'', named_node ''U'')],
     g_edges = Some [mk_edge ''s'' ''T'' ''always'', mk_edge ''T'' ''U'' ''on_success''],
     g_start = Some ''s''\<rparr>"

definition lib_untyped :: library where
  "lib_untyped = [(''p'', mk_plan graph_untyped None)]"

definition blank_state :: tstate where
  "blank_state = \<lparr>plan_id = [], plan_name = [], current_step = 0, total_steps = 0,
     turns_since_progress = 0, steps_completed = [], steps_failed = [],
     stale_after_turns = 15, iteration_started = 0, current_node = [], visited = [],
     path = [], total_nodes = 0, completed_nodes = 0, turns_since_transition = 0,
     events = []\<rparr>"

definition state_of :: "agent \<Rightarrow> tstate" where
  "state_of a = (case graph_state a of Some s \<Rightarrow> s | None \<Rightarrow> blank_state)"

text \<open>
  Scenario E: task \<open>A\<close> goes to task \<open>B\<close> on retry, \<open>B\<close> goes back to \<open>A\<close>.
\<close>

definition graph_cycle :: graph where
  "graph_cycle = \<lparr>g_nodes = Some [(''s'', mk_node ''start''), (''A'', task_done),
       (''B'', mk_node ''task'')],
     g_edges = Some [mk_edge ''s'' ''A'' ''always'', mk_edge ''A'' ''B'' ''on_retry'',
       mk_edge ''B'' ''A'' ''always''],
     g_start = Some ''s''\<rparr>"

definition lib_cycle :: library where
  "lib_cycle = [(''p'', mk_plan graph_cycle None)]"

text \<open>A decision node whose only edge leads back to itself.\<close>

definition graph_loop :: graph where
  "graph_loop = \<lparr>g_nodes = Some [(''s'', mk_node ''start''), (''D'', mk_node ''decision'')],
     g_edges = Some [mk_edge ''s'' ''D'' ''always'', mk_edge ''D'' ''D'' ''always''],
     g_start = Some ''s''\<rparr>"

definition lib_loop :: library where
  "lib_loop = [(''p'', mk_plan graph_loop None)]"


text \<open>Scenario A: start, one task, exit.\<close>

definition graph_linear :: graph where
  "graph_linear = \<lparr>g_nodes = Some [(''s'', mk_node ''start''), (''A'', task_done),
       (''x'', mk_node ''exit'')],
     g_edges = Some [mk_edge ''s'' ''A'' ''always'', mk_edge ''A'' ''x'' ''on_success''],
     g_start = Some ''s''\<rparr>"

definition lib_linear :: library where
  "lib_linear = [(''p'', mk_plan graph_linear (Some 2))]"






text \<open>
  A task \<open>A\<close> with one retry whose only outgoing edge is unconditional, leading to
  the task \<open>B\<close>.
\<close>

definition graph_always :: graph where
  "graph_always = \<lparr>g_nodes = Some [(''s'', mk_node ''start''), (''A'', task_done),
       (''B'', mk_node ''task'')],
     g_edges = Some [mk_edge ''s'' ''A'' ''always'', mk_edge ''A'' ''B'' ''always''],
     g_start = Some ''s''\<rparr>"

definition lib_always :: library where
  "lib_always = [(''p'', mk_plan graph_always None)]"

text \<open>The same task without any outgoing edge.\<close>

definition graph_alone :: graph where
  "graph_alone = \<lparr>g_nodes = Some [(''s'', mk_node ''start''), (''A'', task_done)],
     g_edges = Some [mk_edge ''s'' ''A'' ''always''],
     g_start = Some ''s''\<rparr>"

definition lib_alone :: library where
  "lib_alone = [(''p'', mk_plan graph_alone None)]"

section \<open>Strings: what the evaluator's tests mean\<close>









section \<open>The verification evaluator\<close>






text \<open>
  Claim C10. A verification spec whose type is none of the six enumerated types
  passes whatever the output is.
\<close>

theorem verify_node_unknown_type:
  "n_verify node = Some v \<Longrightarrow> v_type v = Some ty \<Longrightarrow>
   ty \<notin> set [''output_contains'', ''output_not_contains'', ''exit_code_zero'',
              ''any_output'', ''file_exists'', ''manual''] \<Longrightarrow>
   verify_node node output"
  by (simp add: verify_node_def verify_falsy_def get_or_def)

theorem verify_node_unknown_type_witness:
  "verify_node ((mk_node ''task'')\<lparr>n_verify := Some (mk_verify ''regex'' ''^ok$'')\<rparr>) ''anything''"
proof -
  have "n_verify ((mk_node ''task'')\<lparr>n_verify := Some (mk_verify ''regex'' ''^ok$'')\<rparr>)
          = Some (mk_verify ''regex'' ''^ok$'')"
    by simp
  moreover have "v_type (mk_verify ''regex'' ''^ok$'') = Some ''regex''"
    by (simp add: mk_verify_def)
  moreover have "''regex'' \<notin> set [''output_contains'', ''output_not_contains'',
      ''exit_code_zero'', ''any_output'', ''file_exists'', ''manual'']"
    by simp
  ultimately show ?thesis by (rule verify_node_unknown_type)
qed

section \<open>The entry point never raises\<close>

text \<open>
  Claim C9. For every input, and whatever the linear engine does, \<open>execute\<close> returns:
  no exception reaches the host loop. What the \<^verbatim>\<open>try\<close> block had done to the session
  before it raised is left as it is (the traversal state the agent holds and the turn
  data are those of the body), and the log gains one warning naming the error.
\<close>

theorem execute_never_raises:
  "raised (execute lin_check lin_activate lib agent ld) = None \<and>
   htn_state (fst (result_of (execute lin_check lin_activate lib agent ld)))
     = htn_state (fst (result_of (execute_body lin_check lin_activate lib agent ld))) \<and>
   snd (result_of (execute lin_check lin_activate lib agent ld))
     = snd (result_of (execute_body lin_check lin_activate lib agent ld)) \<and>
   agent_log (fst (result_of (execute lin_check lin_activate lib agent ld)))
     = agent_log (fst (result_of (execute_body lin_check lin_activate lib agent ld))) @
       (case raised (execute_body lin_check lin_activate lib agent ld) of
          None \<Rightarrow> [] | Some err \<Rightarrow> [(Warning, MsgError err)])"
  by (cases "execute_body lin_check lin_activate lib agent ld")
     (auto simp: execute_def log_to_def)

text \<open>
  An instance: the task \<open>T\<close> passes and the traversal lands on the node without a
  \<^verbatim>\<open>type\<close> key, where \<^verbatim>\<open>final_node["type"]\<close> raises. The turn still returns, the
  agent keeps the state as the move left it, and the warning is logged.
\<close>

theorem execute_never_raises_witness:
  "raised (execute_body lin_check_nop lin_activate_nop (Some lib_untyped)
      (host_run lib_untyped agent0 [None]) (turn_in (Some ''ok''))) = Some (KeyError ''type'') \<and>
   raised (execute lin_check_nop lin_activate_nop (Some lib_untyped)
      (host_run lib_untyped agent0 [None]) (turn_in (Some ''ok''))) = None \<and>
   map_option current_node (graph_state (host_run lib_untyped agent0 [None, Some ''ok'']))
     = Some ''U'' \<and>
   agent_log (host_run lib_untyped agent0 [None, Some ''ok''])
     = [(Info, MsgGraphActivated ''p'' 1), (Warning, MsgError (KeyError ''type''))]"
proof -
  have body: "raised (execute_body lin_check_nop lin_activate_nop (Some lib_untyped)
      (host_run lib_untyped agent0 [None]) (turn_in (Some ''ok''))) = Some (KeyError ''type'')"
    by code_simp
  have node: "map_option current_node
      (graph_state (host_run lib_untyped agent0 [None, Some ''ok''])) = Some ''U''"
    by code_simp
  have logged: "agent_log (host_run lib_untyped agent0 [None, Some ''ok''])
     = [(Info, MsgGraphActivated ''p'' 1), (Warning, MsgError (KeyError ''type''))]"
    by code_simp
  from execute_never_raises [of lin_check_nop lin_activate_nop "Some lib_untyped"
      "host_run lib_untyped agent0 [None]" "turn_in (Some ''ok'')"]
  have "raised (execute lin_check_nop lin_activate_nop (Some lib_untyped)
      (host_run lib_untyped agent0 [None]) (turn_in (Some ''ok''))) = None"
    by blast
  with body node logged show ?thesis by blast
qed

section \<open>Auto-routing as a sequence of moves\<close>

lemma auto_route_unfold:
  "auto_route plan s depth =
     (if depth \<ge> MAX_ROUTE_DEPTH then Returned s
      else case route_step plan s of
             Stop \<Rightarrow> Returned s
           | Fail err \<Rightarrow> Raised err s
           | Move target condition \<Rightarrow>
               auto_route plan (move_to_node s (current_node s) target condition) (depth + 1))"
  by (subst auto_route.simps)
     (simp add: route_step_def route_via_def split: option.split sum.split)

lemma apply_moves_snoc:
  "apply_moves (move_to_node s f t c) ms = apply_moves s ((f, t, c) # ms)"
  by (simp add: apply_moves_def)

lemma auto_route_moves:
  "\<exists>ms. length ms \<le> MAX_ROUTE_DEPTH - depth \<and>
        result_of (auto_route plan s depth) = apply_moves s ms"
proof (induction "MAX_ROUTE_DEPTH - depth" arbitrary: s depth)
  case 0
  then have "result_of (auto_route plan s depth) = apply_moves s []"
    by (subst auto_route_unfold) (simp add: apply_moves_def)
  then show ?case by (metis le0 list.size(3))
next
  case (Suc n)
  then have lt: "\<not> depth \<ge> MAX_ROUTE_DEPTH" by simp
  show ?case
  proof (cases "route_step plan s")
    case Stop
    with lt have "result_of (auto_route plan s depth) = apply_moves s []"
      by (subst auto_route_unfold) (simp add: apply_moves_def)
    then show ?thesis by (metis le0 list.size(3))
  next
    case (Fail err)
    with lt have "result_of (auto_route plan s depth) = apply_moves s []"
      by (subst auto_route_unfold) (simp add: apply_moves_def)
    then show ?thesis by (metis le0 list.size(3))
  next
    case (Move t c)
    from Suc.hyps(2) have "n = MAX_ROUTE_DEPTH - (depth + 1)" by simp
    from Suc.hyps(1) [OF this, of "move_to_node s (current_node s) t c"]
    obtain ms where ms: "length ms \<le> MAX_ROUTE_DEPTH - (depth + 1)"
      "result_of (auto_route plan (move_to_node s (current_node s) t c) (depth + 1))
         = apply_moves (move_to_node s (current_node s) t c) ms"
      by blast
    from Move lt
    have "auto_route plan s depth
            = auto_route plan (move_to_node s (current_node s) t c) (depth + 1)"
      by (subst auto_route_unfold) simp
    with ms have "result_of (auto_route plan s depth)
                    = apply_moves s ((current_node s, t, c) # ms)"
      by (simp add: apply_moves_snoc)
    moreover from ms(1) lt have "length ((current_node s, t, c) # ms) \<le> MAX_ROUTE_DEPTH - depth"
      by simp
    ultimately show ?thesis by blast
  qed
qed

section \<open>What events and moves leave alone\<close>

lemma emit_event_fields [simp]:
  "path (emit_event s k) = path s"
  "visited (emit_event s k) = visited s"
  "current_node (emit_event s k) = current_node s"
  "turns_since_transition (emit_event s k) = turns_since_transition s"
  "turns_since_progress (emit_event s k) = turns_since_progress s"
  "stale_after_turns (emit_event s k) = stale_after_turns s"
  "completed_nodes (emit_event s k) = completed_nodes s"
  "total_nodes (emit_event s k) = total_nodes s"
  "steps_completed (emit_event s k) = steps_completed s"
  "steps_failed (emit_event s k) = steps_failed s"
  "plan_id (emit_event s k) = plan_id s"
  "plan_name (emit_event s k) = plan_name s"
  by (simp_all add: emit_event_def Let_def)

lemma move_to_node_fields [simp]:
  "path (move_to_node s f t c) = path s @ [t]"
  "current_node (move_to_node s f t c) = t"
  "turns_since_transition (move_to_node s f t c) = 0"
  "turns_since_progress (move_to_node s f t c) = turns_since_progress s"
  "stale_after_turns (move_to_node s f t c) = stale_after_turns s"
  "completed_nodes (move_to_node s f t c) = completed_nodes s"
  "total_nodes (move_to_node s f t c) = total_nodes s"
  "steps_completed (move_to_node s f t c) = steps_completed s"
  "steps_failed (move_to_node s f t c) = steps_failed s"
  "plan_id (move_to_node s f t c) = plan_id s"
  "plan_name (move_to_node s f t c) = plan_name s"
  by (simp_all add: move_to_node_def Let_def)

lemma move_to_node_visited:
  "map_of (visited (move_to_node s f t c)) =
     (if map_of (visited s) t \<noteq> None
      then (map_of (visited s))(t \<mapsto> \<lparr>outcome = ''pending'', attempts = 0\<rparr>)
      else map_of (visited s))"
  by (simp add: move_to_node_def Let_def update_conv')

lemma apply_moves_path: "path (apply_moves s ms) = path s @ map (\<lambda>(f, t, c). t) ms"
  by (induction ms arbitrary: s) (auto simp: apply_moves_def)

section \<open>Moves reset the visit record; auto-routing is bounded\<close>

text \<open>
  Claim C3. Moving to a node that has a visit record resets the record to outcome
  \<open>pending\<close> with zero attempts; and in every case the record the next verification
  starts from (the stored one, or the default of \<^verbatim>\<open>setdefault\<close>) is that fresh one.
  So a task that failed or exhausted its retries in an earlier visit starts the new
  visit with a full retry budget.
\<close>

theorem move_resets_visit:
  "(map_of (visited s) to_node \<noteq> None \<longrightarrow>
      map_of (visited (move_to_node s from_node to_node condition)) to_node
        = Some \<lparr>outcome = ''pending'', attempts = 0\<rparr>) \<and>
   visit_of (move_to_node s from_node to_node condition) to_node
     = \<lparr>outcome = ''pending'', attempts = 0\<rparr>"
  by (auto simp: visit_of_def move_to_node_visited)

text \<open>
  Scenario E: \<open>A\<close> fails once and routes to \<open>B\<close> on retry, with one attempt recorded;
  \<open>B\<close> passes and routes back to \<open>A\<close>, whose attempts are then zero.
\<close>

theorem move_resets_visit_witness:
  "current_node (state_of (host_run lib_cycle agent0 [None, Some ''fail''])) = ''B'' \<and>
   map_of (visited (state_of (host_run lib_cycle agent0 [None, Some ''fail'']))) ''A''
     = Some \<lparr>outcome = ''pending'', attempts = 1\<rparr> \<and>
   map_of (visited (move_to_node (state_of (host_run lib_cycle agent0 [None, Some ''fail'']))
       ''B'' ''A'' ''on_success'')) ''A''
     = Some \<lparr>outcome = ''pending'', attempts = 0\<rparr> \<and>
   path (state_of (host_run lib_cycle agent0 [None, Some ''fail'', Some ''ok'']))
     = [''s'', ''A'', ''B'', ''A''] \<and>
   visit_of (state_of (host_run lib_cycle agent0 [None, Some ''fail'', Some ''ok''])) ''A''
     = \<lparr>outcome = ''pending'', attempts = 0\<rparr>"
proof -
  have at_B: "current_node (state_of (host_run lib_cycle agent0 [None, Some ''fail''])) = ''B''"
    by code_simp
  have rec: "map_of (visited (state_of (host_run lib_cycle agent0 [None, Some ''fail'']))) ''A''
     = Some \<lparr>outcome = ''pending'', attempts = 1\<rparr>"
    by code_simp
  have again: "path (state_of (host_run lib_cycle agent0 [None, Some ''fail'', Some ''ok'']))
     = [''s'', ''A'', ''B'', ''A'']"
    by code_simp
  have fresh: "visit_of (state_of (host_run lib_cycle agent0 [None, Some ''fail'', Some ''ok'']))
     ''A'' = \<lparr>outcome = ''pending'', attempts = 0\<rparr>"
    by code_simp
  from rec have "map_of (visited (state_of (host_run lib_cycle agent0 [None, Some ''fail''])))
     ''A'' \<noteq> None"
    by simp
  with move_resets_visit [of "state_of (host_run lib_cycle agent0 [None, Some ''fail''])"
      "''A''" "''B''" "''on_success''"]
  have "map_of (visited (move_to_node (state_of (host_run lib_cycle agent0 [None, Some ''fail'']))
       ''B'' ''A'' ''on_success'')) ''A'' = Some \<lparr>outcome = ''pending'', attempts = 0\<rparr>"
    by blast
  with at_B rec again fresh show ?thesis by blast
qed

text \<open>
  Claim C8. Auto-routing is a total function: its recursion is on the distance of the
  depth from the ceiling, so it returns for every plan and state. One invocation
  is a sequence of at most 15 moves, so the path grows by at most 15.
\<close>

theorem auto_route_bounded:
  "(\<exists>ms. length ms \<le> 15 \<and> result_of (auto_route plan s 0) = apply_moves s ms) \<and>
   length (path (result_of (auto_route plan s 0))) \<le> length (path s) + 15"
proof -
  from auto_route_moves [of 0 plan s]
  obtain ms where ms: "length ms \<le> 15" "result_of (auto_route plan s 0) = apply_moves s ms"
    by (auto simp: MAX_ROUTE_DEPTH_def)
  then have "length (path (result_of (auto_route plan s 0))) \<le> length (path s) + 15"
    by (simp add: apply_moves_path)
  with ms show ?thesis by blast
qed

text \<open>
  On the decision node that points back to itself, one invocation makes exactly 15
  moves and stops there.
\<close>

theorem auto_route_bounded_witness:
  "current_node (state_of (host_run lib_loop agent0 [None])) = ''D'' \<and>
   length (path (state_of (host_run lib_loop agent0 [None]))) = 17 \<and>
   length (path (result_of (auto_route (mk_plan graph_loop None)
      (state_of (host_run lib_loop agent0 [None])) 0))) = 32 \<and>
   length (path (result_of (auto_route (mk_plan graph_loop None)
      (state_of (host_run lib_loop agent0 [None])) 0)))
     \<le> length (path (state_of (host_run lib_loop agent0 [None]))) + 15"
proof -
  have at_D: "current_node (state_of (host_run lib_loop agent0 [None])) = ''D''"
    by code_simp
  have before: "length (path (state_of (host_run lib_loop agent0 [None]))) = 17"
    by code_simp
  have after: "length (path (result_of (auto_route (mk_plan graph_loop None)
      (state_of (host_run lib_loop agent0 [None])) 0))) = 32"
    by code_simp
  from auto_route_bounded [of "mk_plan graph_loop None"
      "state_of (host_run lib_loop agent0 [None])"]
  have "length (path (result_of (auto_route (mk_plan graph_loop None)
      (state_of (host_run lib_loop agent0 [None])) 0)))
     \<le> length (path (state_of (host_run lib_loop agent0 [None]))) + 15"
    by blast
  with at_D before after show ?thesis by blast
qed

section \<open>The plan matcher\<close>















section \<open>Activation\<close>













section \<open>The retry branch\<close>

text \<open>
  The event log keeps the last 50 events, newest last: an event stays in the log
  while fewer than 50 events follow it, and a move emits two.
\<close>

lemma rev_drop_take: "n \<le> length xs \<Longrightarrow> rev (drop (length xs - n) xs) = take n (rev xs)"
  by (simp add: rev_drop)

lemma rev_events_emit:
  "rev (events (emit_event s k))
     = take MAX_EVENTS (Event (turns_since_transition s) k # rev (events s))"
proof -
  define evs where "evs = events s @ [Event (turns_since_transition s) k]"
  have ev: "events (emit_event s k)
      = (if length evs > MAX_EVENTS then drop (length evs - MAX_EVENTS) evs else evs)"
    by (simp add: emit_event_def Let_def evs_def)
  have "rev (events (emit_event s k)) = take MAX_EVENTS (rev evs)"
  proof (cases "length evs > MAX_EVENTS")
    case True
    then have "rev (drop (length evs - MAX_EVENTS) evs) = take MAX_EVENTS (rev evs)"
      by (intro rev_drop_take) simp
    with True ev show ?thesis by simp
  next
    case False
    with ev show ?thesis by simp
  qed
  then show ?thesis by (simp add: evs_def)
qed

lemma recent_emit:
  assumes "i < length (events s)" "rev (events s) ! i = e" "i + 1 < MAX_EVENTS"
  shows "i + 1 < length (events (emit_event s k)) \<and> rev (events (emit_event s k)) ! (i + 1) = e"
proof -
  from assms have "rev (events (emit_event s k)) ! (i + 1) = e"
    by (simp add: rev_events_emit)
  moreover from assms have "i + 1 < length (rev (events (emit_event s k)))"
    unfolding rev_events_emit by simp
  ultimately show ?thesis by simp
qed

lemma recent_move:
  assumes "i < length (events s)" "rev (events s) ! i = e" "i + 2 < MAX_EVENTS"
  shows "i + 2 < length (events (move_to_node s f t c)) \<and>
         rev (events (move_to_node s f t c)) ! (i + 2) = e"
proof -
  define s2 where "s2 = (if map_of (visited (s\<lparr>current_node := t, path := path s @ [t],
          turns_since_transition := 0\<rparr>)) t \<noteq> None
     then (s\<lparr>current_node := t, path := path s @ [t], turns_since_transition := 0\<rparr>)
            \<lparr>visited := AList.update t \<lparr>outcome = ''pending'', attempts = 0\<rparr>
               (visited (s\<lparr>current_node := t, path := path s @ [t],
                  turns_since_transition := 0\<rparr>))\<rparr>
     else s\<lparr>current_node := t, path := path s @ [t], turns_since_transition := 0\<rparr>)"
  have ev: "events s2 = events s" by (simp add: s2_def)
  have mv: "move_to_node s f t c = emit_event (emit_event s2 (EdgeFollowed f t c)) (NodeEntered t)"
    by (simp add: move_to_node_def Let_def s2_def)
  from assms ev have a: "i < length (events s2)" "rev (events s2) ! i = e" "i + 1 < MAX_EVENTS"
    by simp_all
  from recent_emit [OF a, of "EdgeFollowed f t c"] assms(3)
  have b: "i + 1 < length (events (emit_event s2 (EdgeFollowed f t c)))"
    "rev (events (emit_event s2 (EdgeFollowed f t c))) ! (i + 1) = e" "i + 1 + 1 < MAX_EVENTS"
    by simp_all
  from recent_emit [OF b, of "NodeEntered t"] show ?thesis
    by (simp add: mv)
qed

lemma recent_moves:
  "i < length (events s) \<Longrightarrow> rev (events s) ! i = e \<Longrightarrow> i + 2 * length ms < MAX_EVENTS \<Longrightarrow>
   i + 2 * length ms < length (events (apply_moves s ms)) \<and>
   rev (events (apply_moves s ms)) ! (i + 2 * length ms) = e"
proof (induction ms arbitrary: s i)
  case Nil
  then show ?case by (simp add: apply_moves_def)
next
  case (Cons m ms)
  obtain f t c where m: "m = (f, t, c)" by (cases m)
  from Cons.prems have lt: "i + 2 < MAX_EVENTS" by simp
  from recent_move [OF Cons.prems(1,2) lt, of f t c]
  have a: "i + 2 < length (events (move_to_node s f t c))"
    "rev (events (move_to_node s f t c)) ! (i + 2) = e"
    by simp_all
  from Cons.prems(3) have b: "i + 2 + 2 * length ms < MAX_EVENTS" by simp
  have e1: "i + 2 * length (m # ms) = i + 2 + 2 * length ms" by simp
  have e2: "apply_moves s (m # ms) = apply_moves (move_to_node s f t c) ms"
    by (simp add: m apply_moves_def)
  from Cons.IH [OF a b] show ?case unfolding e1 e2 .
qed

lemma recent_mem:
  "i < length (events s) \<and> rev (events s) ! i = e \<Longrightarrow> e \<in> set (events s)"
  using nth_mem [of i "rev (events s)"] by auto

lemma follow_edge_plain:
  "follow_edge graph k c [] [] =
     (case first_edge (out_edges graph k) c of
        Some e \<Rightarrow> edge_target e
      | None \<Rightarrow>
          (case first_edge (out_edges graph k) ''always'' of
             Some e \<Rightarrow> edge_target e
           | None \<Rightarrow> Inr None))"
  by (simp add: follow_edge_def out_edges_def Let_def split: option.splits)


lemma wrap_result:
  "snd (result_of (case r of Raised err s \<Rightarrow> Raised err (agent, s)
                            | Returned s \<Rightarrow> Returned (agent, s))) = result_of r"
  "raised (case r of Raised err s \<Rightarrow> Raised err (agent, s)
                   | Returned s \<Rightarrow> Returned (agent, s)) = raised r"
  by (cases r; simp)+

lemma cgp_task_retry:
  assumes "\<not> verify_node node out"
    and "attempts (visit_of state node_id) + 1 \<le> get_or 0 (n_max_retries node)"
  shows "cgp_task plan graph node_id node agent state out =
     (case follow_edge graph node_id ''on_retry'' [] [] of
        Inl err \<Rightarrow> Raised err (agent, retry_state state node_id)
      | Inr None \<Rightarrow> Returned (agent, retry_state state node_id)
      | Inr (Some target) \<Rightarrow>
          if target = [] then Returned (agent, retry_state state node_id)
          else (case auto_route plan
                       (move_to_node (retry_state state node_id) node_id target ''on_retry'') 0 of
                  Raised err s4 \<Rightarrow> Raised err (agent, s4)
                | Returned s4 \<Rightarrow> Returned (agent, s4)))"
  using assms
  by (simp add: cgp_task_def retry_state_def visit_of_def Let_def del: auto_route.simps
      split: sum.split option.split)

lemma retry_state_fields:
  "path (retry_state state node_id) = path state"
  "current_node (retry_state state node_id) = current_node state"
  "visit_of (retry_state state node_id) node_id
     = (visit_of state node_id)\<lparr>attempts := attempts (visit_of state node_id) + 1\<rparr>"
  "0 < length (events (retry_state state node_id))"
  "rev (events (retry_state state node_id)) ! 0
     = Event (turns_since_transition state) (RetryTriggered node_id)"
proof -
  show "path (retry_state state node_id) = path state"
    by (simp add: retry_state_def)
  show "current_node (retry_state state node_id) = current_node state"
    by (simp add: retry_state_def)
  show "visit_of (retry_state state node_id) node_id
     = (visit_of state node_id)\<lparr>attempts := attempts (visit_of state node_id) + 1\<rparr>"
    by (simp add: retry_state_def visit_of_def update_conv')
  have r: "rev (events (retry_state state node_id))
      = take MAX_EVENTS (Event (turns_since_transition state) (RetryTriggered node_id) #
          rev (events (emit_event
          (state\<lparr>visited :=
             AList.update node_id
               ((visit_of state node_id)\<lparr>attempts := attempts (visit_of state node_id) + 1\<rparr>)
               (visited state)\<rparr>)
          (NodeVerified node_id ''fail''))))"
    unfolding retry_state_def rev_events_emit by simp
  then show "rev (events (retry_state state node_id)) ! 0
     = Event (turns_since_transition state) (RetryTriggered node_id)"
    by (simp add: MAX_EVENTS_def)
  from r have "length (rev (events (retry_state state node_id))) > 0"
    by (simp add: MAX_EVENTS_def)
  then show "0 < length (events (retry_state state node_id))" by simp
qed

lemma retry_moves:
  assumes "\<not> verify_node node out"
    and "attempts (visit_of state node_id) + 1 \<le> get_or 0 (n_max_retries node)"
  shows "\<exists>ms. length ms \<le> 16 \<and>
           snd (result_of (cgp_task plan graph node_id node agent state out))
             = apply_moves (retry_state state node_id) ms"
proof -
  have stay: "\<exists>ms. length ms \<le> 16 \<and> retry_state state node_id
      = apply_moves (retry_state state node_id) ms"
    by (rule exI [of _ "[]"]) (simp add: apply_moves_def)
  have go: "\<exists>ms. length ms \<le> 16 \<and>
      result_of (auto_route plan (move_to_node (retry_state state node_id) node_id t ''on_retry'') 0)
        = apply_moves (retry_state state node_id) ms" for t
  proof -
    from auto_route_moves [of 0 plan "move_to_node (retry_state state node_id) node_id t ''on_retry''"]
    obtain ms where ms: "length ms \<le> 15"
      "result_of (auto_route plan (move_to_node (retry_state state node_id) node_id t ''on_retry'') 0)
        = apply_moves (move_to_node (retry_state state node_id) node_id t ''on_retry'') ms"
      by (auto simp: MAX_ROUTE_DEPTH_def)
    from ms(1) have "length ((node_id, t, ''on_retry'') # ms) \<le> 16" by simp
    with ms(2) show ?thesis unfolding apply_moves_snoc by blast
  qed
  show ?thesis
    unfolding cgp_task_retry [OF assms]
    using stay go
    by (auto simp: wrap_result split: sum.splits option.splits simp del: auto_route.simps)
qed

text \<open>
  Claim C4, as the code has it. When a task node fails verification and the attempt
  just counted is within its retry budget, the event \<open>retry_triggered\<close> is emitted
  (and is in the log when the call ends). If the node has an outgoing edge with
  condition \<open>on_retry\<close>, the first such edge is followed; if it has none but has an
  outgoing \<open>always\<close> edge, the first such edge is followed; and if it has neither,
  the call returns with \<open>current_node\<close> and the path unchanged and the attempt
  recorded, so the traversal stays on the node for another attempt.
\<close>

theorem retry_branch:
  assumes "\<not> verify_node node out"
    and "attempts (visit_of state node_id) + 1 \<le> get_or 0 (n_max_retries node)"
  shows
    "Event (turns_since_transition state) (RetryTriggered node_id)
       \<in> set (events (snd (result_of (cgp_task plan graph node_id node agent state out)))) \<and>
     (\<forall>e t. first_edge (out_edges graph node_id) ''on_retry'' = Some e \<and>
            e_to e = Some t \<and> t \<noteq> [] \<longrightarrow>
        take (length (path state) + 1)
          (path (snd (result_of (cgp_task plan graph node_id node agent state out))))
          = path state @ [t]) \<and>
     (\<forall>e t. first_edge (out_edges graph node_id) ''on_retry'' = None \<and>
            first_edge (out_edges graph node_id) ''always'' = Some e \<and>
            e_to e = Some t \<and> t \<noteq> [] \<longrightarrow>
        take (length (path state) + 1)
          (path (snd (result_of (cgp_task plan graph node_id node agent state out))))
          = path state @ [t]) \<and>
     (first_edge (out_edges graph node_id) ''on_retry'' = None \<and>
      first_edge (out_edges graph node_id) ''always'' = None \<longrightarrow>
        raised (cgp_task plan graph node_id node agent state out) = None \<and>
        path (snd (result_of (cgp_task plan graph node_id node agent state out))) = path state \<and>
        current_node (snd (result_of (cgp_task plan graph node_id node agent state out)))
          = current_node state \<and>
        visit_of (snd (result_of (cgp_task plan graph node_id node agent state out))) node_id
          = (visit_of state node_id)\<lparr>attempts := attempts (visit_of state node_id) + 1\<rparr>)"
proof -
  let ?R = "cgp_task plan graph node_id node agent state out"
  let ?rs = "retry_state state node_id"
  have emitted: "Event (turns_since_transition state) (RetryTriggered node_id)
       \<in> set (events (snd (result_of ?R)))"
  proof -
    from retry_moves [OF assms] obtain ms where ms: "length ms \<le> 16"
      "snd (result_of ?R) = apply_moves ?rs ms"
      by blast
    from ms(1) have "0 + 2 * length ms < MAX_EVENTS" by (simp add: MAX_EVENTS_def)
    from recent_moves [OF retry_state_fields(4) retry_state_fields(5) this]
    have "0 + 2 * length ms < length (events (apply_moves ?rs ms)) \<and>
      rev (events (apply_moves ?rs ms)) ! (0 + 2 * length ms)
        = Event (turns_since_transition state) (RetryTriggered node_id)" .
    then have "Event (turns_since_transition state) (RetryTriggered node_id)
        \<in> set (events (apply_moves ?rs ms))"
      by (rule recent_mem)
    with ms(2) show ?thesis by simp
  qed
  have moved: "take (length (path state) + 1) (path (snd (result_of ?R))) = path state @ [t]"
    if "follow_edge graph node_id ''on_retry'' [] [] = Inr (Some t)" "t \<noteq> []" for t
  proof -
    from auto_route_moves [of 0 plan "move_to_node ?rs node_id t ''on_retry''"]
    obtain ms where
      "result_of (auto_route plan (move_to_node ?rs node_id t ''on_retry'') 0)
        = apply_moves (move_to_node ?rs node_id t ''on_retry'') ms"
      by blast
    then have "path (result_of (auto_route plan (move_to_node ?rs node_id t ''on_retry'') 0))
        = path state @ [t] @ map (\<lambda>(f, t, c). t) ms"
      by (simp add: apply_moves_path retry_state_fields)
    moreover from that have "snd (result_of ?R)
        = result_of (auto_route plan (move_to_node ?rs node_id t ''on_retry'') 0)"
      unfolding cgp_task_retry [OF assms] by (simp add: wrap_result del: auto_route.simps)
    ultimately show ?thesis by simp
  qed
  have on_retry: "take (length (path state) + 1) (path (snd (result_of ?R))) = path state @ [t]"
    if "first_edge (out_edges graph node_id) ''on_retry'' = Some e" "e_to e = Some t" "t \<noteq> []"
    for e t
  proof -
    from that(1,2) have "follow_edge graph node_id ''on_retry'' [] [] = Inr (Some t)"
      by (simp add: follow_edge_plain edge_target_def)
    from moved [OF this that(3)] show ?thesis .
  qed
  have always: "take (length (path state) + 1) (path (snd (result_of ?R))) = path state @ [t]"
    if "first_edge (out_edges graph node_id) ''on_retry'' = None"
      "first_edge (out_edges graph node_id) ''always'' = Some e" "e_to e = Some t" "t \<noteq> []"
    for e t
  proof -
    from that(1,2,3) have "follow_edge graph node_id ''on_retry'' [] [] = Inr (Some t)"
      by (simp add: follow_edge_plain edge_target_def)
    from moved [OF this that(4)] show ?thesis .
  qed
  have stays: "raised ?R = None \<and> path (snd (result_of ?R)) = path state \<and>
        current_node (snd (result_of ?R)) = current_node state \<and>
        visit_of (snd (result_of ?R)) node_id
          = (visit_of state node_id)\<lparr>attempts := attempts (visit_of state node_id) + 1\<rparr>"
    if "first_edge (out_edges graph node_id) ''on_retry'' = None"
      "first_edge (out_edges graph node_id) ''always'' = None"
  proof -
    from that have "follow_edge graph node_id ''on_retry'' [] [] = Inr None"
      by (simp add: follow_edge_plain)
    then have "?R = Returned (agent, ?rs)"
      unfolding cgp_task_retry [OF assms] by simp
    then show ?thesis by (simp add: retry_state_fields)
  qed
  from emitted on_retry always stays show ?thesis by blast
qed

text \<open>
  Scenario E, first step: \<open>A\<close> fails its first attempt, the budget is one retry, and
  the \<open>on_retry\<close> edge leads to \<open>B\<close>. In the plan where \<open>A\<close> has no outgoing edge the
  traversal stays on \<open>A\<close> with one attempt recorded.
\<close>

theorem retry_branch_witness:
  "\<not> verify_node task_done ''fail'' \<and>
   attempts (visit_of (state_of (host_run lib_cycle agent0 [None])) ''A'') + 1
     \<le> get_or 0 (n_max_retries task_done) \<and>
   first_edge (out_edges graph_cycle ''A'') ''on_retry'' = Some (mk_edge ''A'' ''B'' ''on_retry'') \<and>
   Event 0 (RetryTriggered ''A'')
     \<in> set (events (snd (result_of (cgp_task (mk_plan graph_cycle None) graph_cycle ''A'' task_done
          agent0 (state_of (host_run lib_cycle agent0 [None])) ''fail'')))) \<and>
   take 3 (path (snd (result_of (cgp_task (mk_plan graph_cycle None) graph_cycle ''A'' task_done
          agent0 (state_of (host_run lib_cycle agent0 [None])) ''fail''))))
     = [''s'', ''A'', ''B''] \<and>
   first_edge (out_edges graph_alone ''A'') ''on_retry'' = None \<and>
   first_edge (out_edges graph_alone ''A'') ''always'' = None \<and>
   current_node (snd (result_of (cgp_task (mk_plan graph_alone None) graph_alone ''A'' task_done
          agent0 (state_of (host_run lib_alone agent0 [None])) ''fail''))) = ''A'' \<and>
   visit_of (snd (result_of (cgp_task (mk_plan graph_alone None) graph_alone ''A'' task_done
          agent0 (state_of (host_run lib_alone agent0 [None])) ''fail''))) ''A''
     = \<lparr>outcome = ''pending'', attempts = 1\<rparr>"
proof -
  have fail: "\<not> verify_node task_done ''fail''"
    by code_simp
  have budget: "attempts (visit_of (state_of (host_run lib_cycle agent0 [None])) ''A'') + 1
     \<le> get_or 0 (n_max_retries task_done)"
    by code_simp
  have budget': "attempts (visit_of (state_of (host_run lib_alone agent0 [None])) ''A'') + 1
     \<le> get_or 0 (n_max_retries task_done)"
    by code_simp
  have edge: "first_edge (out_edges graph_cycle ''A'') ''on_retry''
      = Some (mk_edge ''A'' ''B'' ''on_retry'')"
    by code_simp
  have to: "e_to (mk_edge ''A'' ''B'' ''on_retry'') = Some ''B''"
    by (simp add: mk_edge_def)
  have p: "path (state_of (host_run lib_cycle agent0 [None])) = [''s'', ''A'']"
    by code_simp
  have t: "turns_since_transition (state_of (host_run lib_cycle agent0 [None])) = 0"
    by code_simp
  have none: "first_edge (out_edges graph_alone ''A'') ''on_retry'' = None"
    "first_edge (out_edges graph_alone ''A'') ''always'' = None"
    by code_simp+
  have at: "current_node (state_of (host_run lib_alone agent0 [None])) = ''A''"
    by code_simp
  have v: "visit_of (state_of (host_run lib_alone agent0 [None])) ''A''
      = \<lparr>outcome = ''pending'', attempts = 0\<rparr>"
    by code_simp
  note cyc = retry_branch [OF fail budget, of "mk_plan graph_cycle None" graph_cycle agent0]
  from cyc have 1: "Event 0 (RetryTriggered ''A'')
     \<in> set (events (snd (result_of (cgp_task (mk_plan graph_cycle None) graph_cycle ''A'' task_done
          agent0 (state_of (host_run lib_cycle agent0 [None])) ''fail''))))"
    by (simp only: t)
  from cyc have "first_edge (out_edges graph_cycle ''A'') ''on_retry''
        = Some (mk_edge ''A'' ''B'' ''on_retry'') \<and>
      e_to (mk_edge ''A'' ''B'' ''on_retry'') = Some ''B'' \<and> ''B'' \<noteq> [] \<longrightarrow>
      take (length (path (state_of (host_run lib_cycle agent0 [None]))) + 1)
        (path (snd (result_of (cgp_task (mk_plan graph_cycle None) graph_cycle ''A'' task_done
          agent0 (state_of (host_run lib_cycle agent0 [None])) ''fail''))))
        = path (state_of (host_run lib_cycle agent0 [None])) @ [''B'']"
    by blast
  with edge to have 2: "take 3 (path (snd (result_of (cgp_task (mk_plan graph_cycle None)
          graph_cycle ''A'' task_done agent0 (state_of (host_run lib_cycle agent0 [None]))
          ''fail'')))) = [''s'', ''A'', ''B'']"
    by (simp add: p numeral_3_eq_3)
  note alone = retry_branch [OF fail budget', of "mk_plan graph_alone None" graph_alone agent0]
  from alone none have "current_node (snd (result_of (cgp_task (mk_plan graph_alone None)
          graph_alone ''A'' task_done agent0 (state_of (host_run lib_alone agent0 [None]))
          ''fail''))) = current_node (state_of (host_run lib_alone agent0 [None])) \<and>
      visit_of (snd (result_of (cgp_task (mk_plan graph_alone None) graph_alone ''A'' task_done
          agent0 (state_of (host_run lib_alone agent0 [None])) ''fail''))) ''A''
        = (visit_of (state_of (host_run lib_alone agent0 [None])) ''A'')
            \<lparr>attempts := attempts (visit_of (state_of (host_run lib_alone agent0 [None])) ''A'')
               + 1\<rparr>"
    by blast
  then have 3: "current_node (snd (result_of (cgp_task (mk_plan graph_alone None)
          graph_alone ''A'' task_done agent0 (state_of (host_run lib_alone agent0 [None]))
          ''fail''))) = ''A'' \<and>
      visit_of (snd (result_of (cgp_task (mk_plan graph_alone None) graph_alone ''A'' task_done
          agent0 (state_of (host_run lib_alone agent0 [None])) ''fail''))) ''A''
        = \<lparr>outcome = ''pending'', attempts = 1\<rparr>"
    by (simp add: at v)
  from fail budget edge 1 2 none 3 show ?thesis by blast
qed

text \<open>
  The claim as stated fails where the task has no \<open>on_retry\<close> edge but an
  unconditional one: \<open>A\<close> fails its first attempt within the budget, the retry is
  announced, and the traversal leaves \<open>A\<close> for \<open>B\<close> along the \<open>always\<close> edge.
\<close>

theorem retry_branch_counterexample:
  "current_node (state_of (host_run lib_always agent0 [None])) = ''A'' \<and>
   first_edge (out_edges graph_always ''A'') ''on_retry'' = None \<and>
   \<not> verify_node task_done ''fail'' \<and>
   attempts (visit_of (state_of (host_run lib_always agent0 [None])) ''A'') + 1
     \<le> get_or 0 (n_max_retries task_done) \<and>
   current_node (state_of (host_run lib_always agent0 [None, Some ''fail''])) = ''B'' \<and>
   map ev_kind (events (state_of (host_run lib_always agent0 [None, Some ''fail''])))
     = [PlanActivated ''s'' ''p'', NodeEntered ''s'', EdgeFollowed ''s'' ''A'' ''always'',
        NodeEntered ''A'', NodeVerified ''A'' ''fail'', RetryTriggered ''A'',
        EdgeFollowed ''A'' ''B'' ''on_retry'', NodeEntered ''B'']"
proof -
  have 1: "current_node (state_of (host_run lib_always agent0 [None])) = ''A''"
    by code_simp
  have 2: "first_edge (out_edges graph_always ''A'') ''on_retry'' = None"
    by code_simp
  have 3: "\<not> verify_node task_done ''fail''"
    by code_simp
  have 4: "attempts (visit_of (state_of (host_run lib_always agent0 [None])) ''A'') + 1
     \<le> get_or 0 (n_max_retries task_done)"
    by code_simp
  have 5: "current_node (state_of (host_run lib_always agent0 [None, Some ''fail''])) = ''B''"
    by code_simp
  have 6: "map ev_kind (events (state_of (host_run lib_always agent0 [None, Some ''fail''])))
     = [PlanActivated ''s'' ''p'', NodeEntered ''s'', EdgeFollowed ''s'' ''A'' ''always'',
        NodeEntered ''A'', NodeVerified ''A'' ''fail'', RetryTriggered ''A'',
        EdgeFollowed ''A'' ''B'' ''on_retry'', NodeEntered ''B'']"
    by code_simp
  from 1 2 3 4 5 6 show ?thesis by blast
qed

end
